theory Spec2Isabelle
  imports Complex_Main "HOL-Library.Multiset" "HOL-Library.Char_ord" "HOL-Library.List_Lexorder"
    "HOL-Library.Sublist"
begin

section \<open>The store: tables of main.py\<close>

text \<open>
  The three tables of \<open>init_db\<close>. A row is a record whose fields carry the column names
  behind the alias the queries use (\<open>i.id\<close> is \<open>i_id\<close>, \<open>t.qty\<close> is \<open>t_qty\<close>,
  a party column is \<open>p_...\<close>). A nullable TEXT or INTEGER column is an option, \<open>None\<close>
  being NULL. The price columns and \<open>active\<close> hold numbers, as every writer of the
  source binds a float to the prices and leaves \<open>active\<close> to its default.
  A table is the list of its rows in rowid order.

  Numbers. A REAL column and a Python float hold an IEEE double; here a number is a
  rational and sums, products and rounding are the exact ones. The two agree where every
  value met is a double and no operation rounds (zero, whole quantities and whole
  prices of ordinary size); they can differ in the last place otherwise, and a rounding
  to two decimals can then fall on the other cent. No statement below is made about
  the digits of a sum, a product or a rounded value outside that range: the statements
  are about which rows are read, with which sign, what is written and what is refused.
\<close>

record item =
  i_id :: int
  i_name :: string
  i_category :: "string option"
  i_brand :: "string option"
  i_unit :: "string option"
  i_cost_price :: rat
  i_sale_price :: rat
  i_active :: int
  i_notes :: "string option"

record party =
  p_id :: int
  p_type :: string
  p_name :: string
  p_phone :: "string option"
  p_address :: "string option"

record txn =
  t_id :: int
  t_item_id :: int
  t_txn_type :: string
  t_qty :: rat
  t_unit_price :: "rat option"
  t_party_id :: "int option"
  t_ref_no :: "string option"
  t_txn_date :: string
  t_remarks :: "string option"
  t_created_at :: string

text \<open>
  The database file: the tables and, for each, the AUTOINCREMENT counter
  (the largest rowid the table ever held, kept in \<open>sqlite_sequence\<close>).
\<close>

record db =
  items :: "item list"
  parties :: "party list"
  transactions :: "txn list"
  seq_items :: int
  seq_parties :: int
  seq_transactions :: int

definition init_db :: db where
  "init_db = \<lparr>items = [], parties = [], transactions = [],
              seq_items = 0, seq_parties = 0, seq_transactions = 0\<rparr>"

text \<open>The rowid an AUTOINCREMENT table gives its next row: one more than the largest ever used.\<close>

definition next_rowid :: "int \<Rightarrow> int list \<Rightarrow> int" where
  "next_rowid s ids = fold max ids s + 1"

datatype constraint = NOT_NULL | CHECK | FOREIGN_KEY

datatype error = ValueError string | IntegrityError constraint | IndexError | TypeError


section \<open>Data frames\<close>

text \<open>
  What \<open>pd.read_sql_query\<close> returns: the column names and the rows, a row being its cells
  in column order. A number is a \<open>Num\<close>, NULL is \<open>Null\<close>.
\<close>

datatype cell = Num rat | Text string | Null

record dataframe =
  df_columns :: "string list"
  df_rows :: "cell list list"

definition df_empty :: "dataframe \<Rightarrow> bool" where
  "df_empty df \<longleftrightarrow> df_columns df = [] \<or> df_rows df = []"

definition row_get :: "dataframe \<Rightarrow> cell list \<Rightarrow> string \<Rightarrow> cell option" where
  "row_get df r c = map_of (zip (df_columns df) r) c"

fun opt_text :: "string option \<Rightarrow> cell" where
  "opt_text None = Null"
| "opt_text (Some s) = Text s"


section \<open>Compute Stock Position: get_inventory_df\<close>

text \<open>
  The query is evaluated clause by clause.
  \<open>FROM items i LEFT JOIN transactions t ON t.item_id = i.id\<close>: every item with each of
  its transactions, and with no transaction (\<open>None\<close>, all of \<open>t\<close>'s columns NULL) when it
  has none.
\<close>

definition left_join :: "item list \<Rightarrow> txn list \<Rightarrow> (item \<times> txn option) list" where
  "left_join is ts =
     concat (map (\<lambda>i. case filter (\<lambda>t. t_item_id t = i_id i) ts of
                          [] \<Rightarrow> [(i, None)]
                        | m # ms \<Rightarrow> map (\<lambda>t. (i, Some t)) (m # ms)) is)"

text \<open>
  The CASE expression. On the NULL row of the outer join no WHEN holds, so the value is
  the ELSE branch.
\<close>

fun case_qty :: "txn option \<Rightarrow> rat" where
  "case_qty None = 0"
| "case_qty (Some t) =
     (if t_txn_type t = ''IN'' then t_qty t
      else if t_txn_type t = ''OUT'' then - t_qty t
      else if t_txn_type t = ''ADJUST'' then t_qty t
      else 0)"

text \<open>SUM skips NULLs and is NULL when nothing is left; COALESCE takes the first non-NULL.\<close>

definition sql_sum :: "rat option list \<Rightarrow> rat option" where
  "sql_sum vs = (case List.map_filter (\<lambda>v. v) vs of [] \<Rightarrow> None | x # xs \<Rightarrow> Some (sum_list (x # xs)))"

fun coalesce :: "rat option \<Rightarrow> rat \<Rightarrow> rat" where
  "coalesce None d = d"
| "coalesce (Some v) d = v"

text \<open>\<open>GROUP BY i.id\<close>: one group for each value of the key, in ascending key order.\<close>

definition group_by :: "('r \<Rightarrow> int) \<Rightarrow> 'r list \<Rightarrow> 'r list list" where
  "group_by key rows = map (\<lambda>k. filter (\<lambda>r. key r = k) rows) (sort (remdups (map key rows)))"

text \<open>
  A row of the result: the SELECT list. The columns of \<open>i\<close> outside the aggregate are
  read from the first row of the group (every row of a group carries the same item when
  ids are unique, as the primary key makes them).
\<close>

record inv_row =
  r_id :: int
  r_name :: string
  r_category :: "string option"
  r_brand :: "string option"
  r_unit :: "string option"
  r_cost_price :: rat
  r_sale_price :: rat
  r_stock_qty :: rat

fun select_group :: "(item \<times> txn option) list \<Rightarrow> inv_row list" where
  "select_group [] = []"
| "select_group ((i, t) # g) =
     [\<lparr>r_id = i_id i, r_name = i_name i, r_category = i_category i, r_brand = i_brand i,
       r_unit = i_unit i, r_cost_price = i_cost_price i, r_sale_price = i_sale_price i,
       r_stock_qty = coalesce (sql_sum (map (\<lambda>(i, t). Some (case_qty t)) ((i, t) # g))) 0\<rparr>]"

text \<open>
  The whole query; \<open>ORDER BY i.name\<close> compares the names as byte strings. Rows of equal
  name stay in group order here; nothing below depends on their relative order.
\<close>

definition inventory_query :: "db \<Rightarrow> inv_row list" where
  "inventory_query d =
     sort_key r_name
       (concat (map select_group
          (group_by (\<lambda>(i, t). i_id i)
             (filter (\<lambda>(i, t). i_active i = 1)
                (left_join (items d) (transactions d))))))"

definition inventory_columns :: "string list" where
  "inventory_columns =
     [''id'', ''name'', ''category'', ''brand'', ''unit'', ''cost_price'', ''sale_price'', ''stock_qty'']"

definition inv_cells :: "inv_row \<Rightarrow> cell list" where
  "inv_cells r =
     [Num (of_int (r_id r)), Text (r_name r), opt_text (r_category r), opt_text (r_brand r),
      opt_text (r_unit r), Num (r_cost_price r), Num (r_sale_price r), Num (r_stock_qty r)]"

text \<open>
  \<open>Series.round(2)\<close>: to the nearest multiple of 1/100, a tie going to the even one
  (on exact numbers; see the note on numbers above).
\<close>

definition round_half_even :: "rat \<Rightarrow> int" where
  "round_half_even x =
     (let f = \<lfloor>x\<rfloor>; d = x - of_int f
      in if d < 1 / 2 then f else if 1 / 2 < d then f + 1 else if even f then f else f + 1)"

definition round2 :: "rat \<Rightarrow> rat" where
  "round2 x = of_int (round_half_even (x * 100)) / 100"

text \<open>
  \<open>get_inventory_df\<close>: the frame of the query and, when it is not empty, the new column
  \<open>stock_value_cost\<close> appended, computed row by row from \<open>stock_qty\<close> and \<open>cost_price\<close>.
\<close>

definition get_inventory_df :: "db \<Rightarrow> dataframe" where
  "get_inventory_df d =
     (let rs = inventory_query d;
          df = \<lparr>df_columns = inventory_columns, df_rows = map inv_cells rs\<rparr>
      in if \<not> df_empty df
         then \<lparr>df_columns = df_columns df @ [''stock_value_cost''],
               df_rows = map (\<lambda>r. inv_cells r @ [Num (round2 (r_stock_qty r * r_cost_price r))]) rs\<rparr>
         else df)"

text \<open>The rows of a frame selected by \<open>df[df["id"] == iid]\<close>.\<close>

definition rows_with_id :: "dataframe \<Rightarrow> int \<Rightarrow> cell list list" where
  "rows_with_id df iid = filter (\<lambda>r. row_get df r ''id'' = Some (Num (of_int iid))) (df_rows df)"


section \<open>Item Catalog: get_items_df, add_item, update_item_basic\<close>

definition get_items_df :: "db \<Rightarrow> bool \<Rightarrow> item list" where
  "get_items_df d active_only =
     (if active_only then filter (\<lambda>i. i_active i = 1) (items d) else items d)"

text \<open>\<open>add_item\<close>: the INSERT names seven columns; \<open>id\<close> and \<open>active\<close> take their defaults.\<close>

definition add_item ::
  "db \<Rightarrow> string \<Rightarrow> string option \<Rightarrow> string option \<Rightarrow> string option \<Rightarrow> rat \<Rightarrow> rat
     \<Rightarrow> string option \<Rightarrow> db" where
  "add_item d name category brand unit cost_price sale_price notes =
     (let iid = next_rowid (seq_items d) (map i_id (items d))
      in d\<lparr>items := items d @
              [\<lparr>i_id = iid, i_name = name, i_category = category, i_brand = brand,
                i_unit = unit, i_cost_price = cost_price, i_sale_price = sale_price,
                i_active = 1, i_notes = notes\<rparr>],
            seq_items := iid\<rparr>)"

text \<open>
  \<open>update_item_basic\<close>: the UPDATE touches the rows with the given id;
  \<open>COALESCE(?, cost_price)\<close> is the parameter unless it is NULL (\<open>None\<close>).
\<close>

definition update_item_basic :: "db \<Rightarrow> int \<Rightarrow> rat option \<Rightarrow> rat option \<Rightarrow> db" where
  "update_item_basic d item_id cost_price sale_price =
     d\<lparr>items := map (\<lambda>i. if i_id i = item_id
                            then i\<lparr>i_cost_price := (case cost_price of Some v \<Rightarrow> v | None \<Rightarrow> i_cost_price i),
                                   i_sale_price := (case sale_price of Some v \<Rightarrow> v | None \<Rightarrow> i_sale_price i)\<rparr>
                            else i) (items d)\<rparr>"


section \<open>Party Directory: upsert_party\<close>

text \<open>
  \<open>str.strip()\<close> removes the white space at both ends. A string is the list of its
  characters, taken as code points below 256; the white space among them is U+0009 to
  U+000D, U+001C to U+0020, U+0085 and U+00A0.
\<close>

definition is_space :: "char \<Rightarrow> bool" where
  "is_space c \<longleftrightarrow> (of_char c :: nat) \<in> {9, 10, 11, 12, 13, 28, 29, 30, 31, 32, 133, 160}"

definition strip :: "string \<Rightarrow> string" where
  "strip s = rev (dropWhile is_space (rev (dropWhile is_space s)))"

text \<open>
  The INSERT into \<open>parties\<close>: the CHECK on \<open>type\<close> is the only constraint that can fail
  here (the name is a string). An error leaves the table as it was.
\<close>

definition insert_party ::
  "db \<Rightarrow> string \<Rightarrow> string \<Rightarrow> string option \<Rightarrow> string option \<Rightarrow> (error + int option) \<times> db" where
  "insert_party d party_type name phone address =
     (if party_type \<noteq> ''supplier'' \<and> party_type \<noteq> ''customer''
      then (Inl (IntegrityError CHECK), d)
      else let pid = next_rowid (seq_parties d) (map p_id (parties d))
           in (Inr (Some pid),
               d\<lparr>parties := parties d @
                     [\<lparr>p_id = pid, p_type = party_type, p_name = name,
                       p_phone = phone, p_address = address\<rparr>],
                 seq_parties := pid\<rparr>))"

text \<open>
  \<open>upsert_party\<close>: \<open>(name or "")\<close> turns \<open>None\<close> into the empty string; \<open>fetchone\<close> is
  the first matching row.
\<close>

definition upsert_party ::
  "db \<Rightarrow> string \<Rightarrow> string option \<Rightarrow> string option \<Rightarrow> string option \<Rightarrow> (error + int option) \<times> db" where
  "upsert_party d party_type name phone address =
     (case name of
        None \<Rightarrow> (Inr None, d)
      | Some n \<Rightarrow>
          if strip n = [] then (Inr None, d)
          else (case filter (\<lambda>p. p_type p = party_type \<and> p_name p = strip n) (parties d) of
                  row # _ \<Rightarrow> (Inr (Some (p_id row)), d)
                | [] \<Rightarrow> insert_party d party_type (strip n) phone address))"

definition party_names_unique :: "db \<Rightarrow> bool" where
  "party_names_unique d \<longleftrightarrow> distinct (map (\<lambda>p. (p_type p, p_name p)) (parties d))"


section \<open>Ledger Engine: record_txn\<close>

text \<open>
  What the program reads from outside: whether a connection opened by \<open>get_conn\<close>
  enforces foreign keys (a setting of the connection), the value of CURRENT_TIMESTAMP
  and \<open>date.today().isoformat()\<close>.
\<close>

record env =
  foreign_keys :: bool
  current_timestamp :: string
  today :: string

text \<open>
  The INSERT into \<open>transactions\<close>. The NOT NULL columns receive values; the CHECK on
  \<open>txn_type\<close> is tested on the row, the foreign keys when the connection enforces them.
  \<open>created_at\<close> takes its default.
\<close>

definition insert_transaction ::
  "env \<Rightarrow> db \<Rightarrow> int \<Rightarrow> string \<Rightarrow> rat \<Rightarrow> rat option \<Rightarrow> int option \<Rightarrow> string option \<Rightarrow> string
     \<Rightarrow> string option \<Rightarrow> (error + unit) \<times> db" where
  "insert_transaction e d item_id txn_type qty unit_price party_id ref_no txn_date remarks =
     (if txn_type \<noteq> ''IN'' \<and> txn_type \<noteq> ''OUT'' \<and> txn_type \<noteq> ''ADJUST''
      then (Inl (IntegrityError CHECK), d)
      else if foreign_keys e \<and>
              (item_id \<notin> set (map i_id (items d)) \<or>
               (case party_id of None \<Rightarrow> False | Some p \<Rightarrow> p \<notin> set (map p_id (parties d))))
      then (Inl (IntegrityError FOREIGN_KEY), d)
      else let tid = next_rowid (seq_transactions d) (map t_id (transactions d))
           in (Inr (),
               d\<lparr>transactions := transactions d @
                     [\<lparr>t_id = tid, t_item_id = item_id, t_txn_type = txn_type, t_qty = qty,
                       t_unit_price = unit_price, t_party_id = party_id, t_ref_no = ref_no,
                       t_txn_date = txn_date, t_remarks = remarks,
                       t_created_at = current_timestamp e\<rparr>],
                 seq_transactions := tid\<rparr>))"

text \<open>\<open>txn_date or date.today().isoformat()\<close>: \<open>None\<close> and the empty string are both false.\<close>

definition record_txn ::
  "env \<Rightarrow> db \<Rightarrow> int \<Rightarrow> string \<Rightarrow> rat \<Rightarrow> rat option \<Rightarrow> int option \<Rightarrow> string option
     \<Rightarrow> string option \<Rightarrow> string option \<Rightarrow> (error + unit) \<times> db" where
  "record_txn e d item_id txn_type qty unit_price party_id ref_no txn_date remarks =
     (if qty \<le> 0 then (Inl (ValueError ''Qty must be > 0''), d)
      else insert_transaction e d item_id txn_type qty unit_price party_id ref_no
             (case txn_date of None \<Rightarrow> today e | Some s \<Rightarrow> if s = [] then today e else s)
             remarks)"


section \<open>Stock OUT form\<close>








section \<open>Inventory and Reports: CSV export and recent transactions\<close>

text \<open>
  \<open>to_csv(index=False)\<close>: the header record is the column names, then one record for
  each row, with no index column. A record is kept as its list of fields.
\<close>

definition to_csv :: "dataframe \<Rightarrow> string list \<times> cell list list" where
  "to_csv df = (df_columns df, df_rows df)"

text \<open>The download button exists only in the branch where the frame is not empty.\<close>

definition export_csv :: "db \<Rightarrow> (string list \<times> cell list list) option" where
  "export_csv d =
     (let inv_df_report = get_inventory_df d
      in if df_empty inv_df_report then None else Some (to_csv inv_df_report))"

text \<open>
  The recent-transactions query.
  \<open>FROM transactions t JOIN items i ON i.id = t.item_id\<close>: each transaction with each
  item of its \<open>item_id\<close>.
\<close>

definition recent_join :: "db \<Rightarrow> (txn \<times> item) list" where
  "recent_join d =
     concat (map (\<lambda>t. map (\<lambda>i. (t, i)) (filter (\<lambda>i. i_id i = t_item_id t) (items d)))
                 (transactions d))"

text \<open>
  \<open>ORDER BY t.created_at DESC\<close>: the rows sorted on \<open>created_at\<close>, compared as byte
  strings, the latest first. The query names no second key: rows of equal \<open>created_at\<close>
  come out in the order in which the scan of \<open>transactions\<close> met them, which is the
  rowid order. So the sort is the stable one on the rows of the join.
\<close>

definition order_by_created_at_desc :: "(txn \<times> item) list \<Rightarrow> (txn \<times> item) list" where
  "order_by_created_at_desc rows = rev (sort_key (\<lambda>ti. t_created_at (fst ti)) (rev rows))"

definition limit :: "nat \<Rightarrow> 'a list \<Rightarrow> 'a list" where
  "limit n rows = take n rows"

fun opt_num :: "rat option \<Rightarrow> cell" where
  "opt_num None = Null"
| "opt_num (Some x) = Num x"

definition recent_columns :: "string list" where
  "recent_columns = [''txn_date'', ''txn_type'', ''item'', ''qty'', ''unit_price'', ''ref_no'', ''remarks'']"

definition recent_select :: "txn \<times> item \<Rightarrow> cell list" where
  "recent_select ti =
     (case ti of (t, i) \<Rightarrow>
        [Text (t_txn_date t), Text (t_txn_type t), Text (i_name i), Num (t_qty t),
         opt_num (t_unit_price t), opt_text (t_ref_no t), opt_text (t_remarks t)])"

text \<open>The rows of the result, \<open>LIMIT 200\<close> applied, before the SELECT list is taken.\<close>

definition recent_rows :: "db \<Rightarrow> (txn \<times> item) list" where
  "recent_rows d = limit 200 (order_by_created_at_desc (recent_join d))"

text \<open>The frame shown.\<close>

definition recent_transactions :: "db \<Rightarrow> dataframe" where
  "recent_transactions d =
     \<lparr>df_columns = recent_columns, df_rows = map recent_select (recent_rows d)\<rparr>"


text \<open>
  The order of the listing in the words of the specification: the later \<open>created_at\<close>
  first, and of two rows of equal \<open>created_at\<close> the one of the smaller id first.
\<close>

definition newer_first :: "txn \<times> item \<Rightarrow> txn \<times> item \<Rightarrow> bool" where
  "newer_first a b \<longleftrightarrow>
     t_created_at (fst b) < t_created_at (fst a)
     \<or> (t_created_at (fst a) = t_created_at (fst b) \<and> t_id (fst a) < t_id (fst b))"


section \<open>Integrity of the store and the stock formula\<close>

text \<open>
  \<open>id\<close> is the primary key of \<open>items\<close>; every transaction refers to an item; the
  transactions stand in rowid order, each id larger than the ones before it.
\<close>

definition unique_item_ids :: "db \<Rightarrow> bool" where
  "unique_item_ids d \<longleftrightarrow> distinct (map i_id (items d))"

definition item_refs_exist :: "db \<Rightarrow> bool" where
  "item_refs_exist d \<longleftrightarrow> list_all (\<lambda>t. t_item_id t \<in> set (map i_id (items d))) (transactions d)"

definition txn_ids_increasing :: "db \<Rightarrow> bool" where
  "txn_ids_increasing d \<longleftrightarrow> sorted_wrt (<) (map t_id (transactions d))"

definition item_txns :: "db \<Rightarrow> int \<Rightarrow> txn list" where
  "item_txns d iid = filter (\<lambda>t. t_item_id t = iid) (transactions d)"


text \<open>The row the query yields for an item, given the transaction table.\<close>

definition stock_row :: "txn list \<Rightarrow> item \<Rightarrow> inv_row" where
  "stock_row ts i =
     \<lparr>r_id = i_id i, r_name = i_name i, r_category = i_category i, r_brand = i_brand i,
      r_unit = i_unit i, r_cost_price = i_cost_price i, r_sale_price = i_sale_price i,
      r_stock_qty = sum_list (map (\<lambda>t. case_qty (Some t)) (filter (\<lambda>t. t_item_id t = i_id i) ts))\<rparr>"


text \<open>The cells of a row of the valued frame.\<close>

definition valued_cells :: "inv_row \<Rightarrow> cell list" where
  "valued_cells r = inv_cells r @ [Num (round2 (r_stock_qty r * r_cost_price r))]"


section \<open>Example stores\<close>

definition db_inactive :: db where
  "db_inactive = init_db\<lparr>items :=
     [\<lparr>i_id = 1, i_name = ''Cable'', i_category = None, i_brand = None, i_unit = Some ''pcs'',
       i_cost_price = 5, i_sale_price = 8, i_active = 0, i_notes = None\<rparr>]\<rparr>"


text \<open>The scenario of the specification: 10 in, 3 out, 2 adjusted, at cost 100; and an item with no movement.\<close>

definition db_scenario :: db where
  "db_scenario =
     \<lparr>items =
        [\<lparr>i_id = 1, i_name = ''X'', i_category = Some ''Screen'', i_brand = None,
          i_unit = Some ''pcs'', i_cost_price = 100, i_sale_price = 150, i_active = 1,
          i_notes = None\<rparr>,
         \<lparr>i_id = 2, i_name = ''Glue'', i_category = None, i_brand = None,
          i_unit = Some ''pcs'', i_cost_price = 7, i_sale_price = 9, i_active = 1,
          i_notes = None\<rparr>],
      parties = [],
      transactions =
        [\<lparr>t_id = 1, t_item_id = 1, t_txn_type = ''IN'', t_qty = 10, t_unit_price = Some 100,
          t_party_id = None, t_ref_no = None, t_txn_date = ''2024-05-01'', t_remarks = None,
          t_created_at = ''2024-05-01 10:00:00''\<rparr>,
         \<lparr>t_id = 2, t_item_id = 1, t_txn_type = ''OUT'', t_qty = 3, t_unit_price = Some 150,
          t_party_id = None, t_ref_no = None, t_txn_date = ''2024-05-01'', t_remarks = None,
          t_created_at = ''2024-05-01 10:00:00''\<rparr>,
         \<lparr>t_id = 3, t_item_id = 1, t_txn_type = ''ADJUST'', t_qty = 2, t_unit_price = None,
          t_party_id = None, t_ref_no = None, t_txn_date = ''2024-05-02'', t_remarks = None,
          t_created_at = ''2024-05-02 09:30:00''\<rparr>],
      seq_items = 2, seq_parties = 0, seq_transactions = 3\<rparr>"


text \<open>A connection that does not enforce foreign keys, at some moment.\<close>

definition env0 :: env where
  "env0 = \<lparr>foreign_keys = False, current_timestamp = ''2024-05-03 12:00:00'',
           today = ''2024-05-03''\<rparr>"


text \<open>
  A store of one item and 201 transactions: those of id 1 to 101 created in one second,
  those of id 102 to 201 in the next.
\<close>

definition db_many :: db where
  "db_many =
     \<lparr>items =
        [\<lparr>i_id = 1, i_name = ''X'', i_category = Some ''Screen'', i_brand = None,
          i_unit = Some ''pcs'', i_cost_price = 100, i_sale_price = 150, i_active = 1,
          i_notes = None\<rparr>],
      parties = [],
      transactions =
        map (\<lambda>k. \<lparr>t_id = int k + 1, t_item_id = 1, t_txn_type = ''IN'', t_qty = 1,
                   t_unit_price = None, t_party_id = None, t_ref_no = None,
                   t_txn_date = ''2024-05-01'', t_remarks = None,
                   t_created_at = (if k < 101 then ''2024-05-01 10:00:00''
                                   else ''2024-05-01 10:00:01'')\<rparr>) [0..<201],
      seq_items = 1, seq_parties = 0, seq_transactions = 201\<rparr>"


section \<open>The inventory query, row by row\<close>

lemma left_join_Nil: "left_join [] ts = []"
  by (simp add: left_join_def)

lemma left_join_Cons: "left_join (i # is) ts = left_join [i] ts @ left_join is ts"
  by (simp add: left_join_def)

lemma left_join_single:
  "left_join [i] ts =
     (if filter (\<lambda>t. t_item_id t = i_id i) ts = [] then [(i, None)]
      else map (\<lambda>t. (i, Some t)) (filter (\<lambda>t. t_item_id t = i_id i) ts))"
  by (simp add: left_join_def split: list.splits)

lemma fst_left_join_single: "x \<in> set (left_join [i] ts) \<Longrightarrow> fst x = i"
  by (auto simp: left_join_single split: if_splits)

lemma left_join_single_nonempty: "left_join [i] ts \<noteq> []"
  by (simp add: left_join_single)

lemma fst_set_left_join: "fst ` set (left_join is ts) = set is"
proof (induction "is")
  case Nil
  show ?case by (simp add: left_join_Nil)
next
  case (Cons i "is")
  have "fst ` set (left_join [i] ts) = {i}"
    using left_join_single_nonempty [of i ts] fst_left_join_single [of _ i ts]
    by (cases "left_join [i] ts") (auto simp: image_iff)
  with Cons show ?case
    by (subst left_join_Cons) (simp add: image_Un)
qed

lemma filter_left_join_pred:
  "filter (\<lambda>(i, t). P i) (left_join is ts) = left_join (filter P is) ts"
proof (induction "is")
  case Nil
  show ?case by (simp add: left_join_Nil)
next
  case (Cons i "is")
  have one: "filter (\<lambda>(i, t). P i) (left_join [i] ts) = (if P i then left_join [i] ts else [])"
    by (auto simp: left_join_single filter_empty_conv o_def split: if_splits)
  show ?case
  proof (cases "P i")
    case True
    then show ?thesis
      using Cons one by (simp add: left_join_Cons [of i "is"] left_join_Cons [of i "filter P is"])
  next
    case False
    then show ?thesis
      using Cons one by (simp add: left_join_Cons [of i "is"] )
  qed
qed

lemma filter_key_absent:
  "i_id i \<notin> i_id ` set is \<Longrightarrow> filter (\<lambda>j. i_id j = i_id i) is = []"
  by (induction "is") auto

lemma filter_key_distinct:
  "distinct (map i_id is) \<Longrightarrow> i \<in> set is \<Longrightarrow> filter (\<lambda>j. i_id j = i_id i) is = [i]"
proof (induction "is")
  case Nil
  then show ?case by simp
next
  case (Cons a "is")
  show ?case
  proof (cases "a = i")
    case True
    with Cons.prems have "i_id i \<notin> i_id ` set is" by auto
    then have "filter (\<lambda>j. i_id j = i_id i) is = []" by (rule filter_key_absent)
    with True show ?thesis by simp
  next
    case False
    with Cons.prems have "i \<in> set is" "distinct (map i_id is)" "i_id a \<noteq> i_id i"
      by (auto simp: image_iff)
    with Cons.IH show ?thesis by simp
  qed
qed

lemma group_of_item:
  assumes "distinct (map i_id is)" "i \<in> set is"
  shows "filter (\<lambda>(j, t). i_id j = i_id i) (left_join is ts) = left_join [i] ts"
  using filter_left_join_pred [of "\<lambda>j. i_id j = i_id i" "is" ts] filter_key_distinct [OF assms]
  by simp

lemma sql_sum_Some:
  "sql_sum (map (\<lambda>(i, t). Some (f t)) xs)
     = (if xs = [] then None else Some (sum_list (map (\<lambda>(i, t). f t) xs)))"
proof -
  have "List.map_filter (\<lambda>v. v) (map (\<lambda>(i, t). Some (f t)) xs) = map (\<lambda>(i, t). f t) xs"
    by (induction xs) (auto simp: List.map_filter_simps)
  then show ?thesis
    by (cases xs) (simp_all add: sql_sum_def)
qed

lemma select_group_Cons:
  "select_group ((i, t) # g) =
     [\<lparr>r_id = i_id i, r_name = i_name i, r_category = i_category i, r_brand = i_brand i,
       r_unit = i_unit i, r_cost_price = i_cost_price i, r_sale_price = i_sale_price i,
       r_stock_qty = sum_list (map (\<lambda>(i, t). case_qty t) ((i, t) # g))\<rparr>]"
  using sql_sum_Some [of case_qty "(i, t) # g"] by (simp del: case_qty.simps)

lemma select_group_single: "select_group (left_join [i] ts) = [stock_row ts i]"
proof (cases "filter (\<lambda>t. t_item_id t = i_id i) ts")
  case Nil
  then have "left_join [i] ts = [(i, None)]"
    by (simp add: left_join_single)
  with Nil show ?thesis
    by (simp add: select_group_Cons stock_row_def del: select_group.simps)
next
  case (Cons m ms)
  then have "left_join [i] ts = (i, Some m) # map (\<lambda>t. (i, Some t)) ms"
    by (simp add: left_join_single)
  with Cons show ?thesis
    by (simp add: select_group_Cons stock_row_def o_def del: case_qty.simps select_group.simps)
qed

lemma concat_map_singleton:
  "(\<And>x. x \<in> set xs \<Longrightarrow> f x = [g x]) \<Longrightarrow> concat (map f xs) = map g xs"
  by (induction xs) auto

lemma mset_concat_map_cong:
  "mset ks = mset ks' \<Longrightarrow> mset (concat (map F ks)) = mset (concat (map F ks'))"
proof -
  assume "mset ks = mset ks'"
  then have "image_mset (\<lambda>k. mset (F k)) (mset ks) = image_mset (\<lambda>k. mset (F k)) (mset ks')"
    by simp
  then have "sum_mset (mset (map (\<lambda>k. mset (F k)) ks)) = sum_mset (mset (map (\<lambda>k. mset (F k)) ks'))"
    by simp
  then have "sum_list (map (\<lambda>k. mset (F k)) ks) = sum_list (map (\<lambda>k. mset (F k)) ks')"
    by (simp only: sum_mset_sum_list)
  then show ?thesis
    by (simp add: mset_concat o_def)
qed

lemma mset_inventory_query:
  assumes "distinct (map i_id (items d))"
  shows "mset (inventory_query d)
           = mset (map (stock_row (transactions d)) (filter (\<lambda>i. i_active i = 1) (items d)))"
proof -
  define A where "A = filter (\<lambda>i. i_active i = 1) (items d)"
  define ts where "ts = transactions d"
  define J where "J = left_join A ts"
  define F where "F = (\<lambda>k. select_group (filter (\<lambda>(i, t). i_id i = k) J))"
  have dA: "distinct (map i_id A)"
    using assms unfolding A_def by (rule distinct_map_filter)
  have J: "filter (\<lambda>(i, t). i_active i = 1) (left_join (items d) (transactions d)) = J"
    unfolding J_def A_def ts_def by (rule filter_left_join_pred)
  have keys: "set (map (\<lambda>(i, t). i_id i) J) = set (map i_id A)"
  proof -
    have "(\<lambda>(i, t). i_id i) ` set J = i_id ` (fst ` set J)"
      by (force simp: image_iff)
    then show ?thesis
      using fst_set_left_join [of A ts] by (simp add: J_def)
  qed
  have "mset (sort (remdups (map (\<lambda>(i, t). i_id i) J))) = mset_set (set (map (\<lambda>(i, t). i_id i) J))"
    using mset_set_set [of "remdups (map (\<lambda>(i, t). i_id i) J)"] by simp
  also have "\<dots> = mset (map i_id A)"
    using keys mset_set_set [OF dA] by simp
  finally have K: "mset (sort (remdups (map (\<lambda>(i, t). i_id i) J))) = mset (map i_id A)" .
  have grp: "group_by (\<lambda>(i, t). i_id i) J
               = map (\<lambda>k. filter (\<lambda>(i, t). i_id i = k) J) (sort (remdups (map (\<lambda>(i, t). i_id i) J)))"
    by (simp add: group_by_def case_prod_unfold)
  have "mset (inventory_query d)
          = mset (concat (map F (sort (remdups (map (\<lambda>(i, t). i_id i) J)))))"
    by (simp add: inventory_query_def J grp F_def o_def)
  also have "\<dots> = mset (concat (map F (map i_id A)))"
    using K by (rule mset_concat_map_cong)
  also have "concat (map F (map i_id A)) = map (stock_row ts) A"
  proof -
    have "\<And>i. i \<in> set A \<Longrightarrow> F (i_id i) = [stock_row ts i]"
      unfolding F_def J_def using group_of_item [OF dA] select_group_single by simp
    then have "concat (map (\<lambda>i. F (i_id i)) A) = map (stock_row ts) A"
      by (rule concat_map_singleton)
    then show ?thesis by (simp add: o_def)
  qed
  finally show ?thesis by (simp add: A_def ts_def)
qed

lemma inventory_query_empty_iff:
  "inventory_query d = [] \<longleftrightarrow> filter (\<lambda>i. i_active i = 1) (items d) = []"
proof -
  define A where "A = filter (\<lambda>i. i_active i = 1) (items d)"
  define J where "J = left_join A (transactions d)"
  define key where "key = (\<lambda>(i :: item, t :: txn option). i_id i)"
  have J: "filter (\<lambda>(i, t). i_active i = 1) (left_join (items d) (transactions d)) = J"
    unfolding J_def A_def by (rule filter_left_join_pred)
  have q: "inventory_query d = sort_key r_name (concat (map select_group (group_by key J)))"
    by (simp add: inventory_query_def J key_def)
  show ?thesis
  proof (cases "A = []")
    case True
    then have "J = []" by (simp add: J_def left_join_Nil)
    then show ?thesis using True q by (simp add: group_by_def A_def)
  next
    case False
    then obtain x where x: "x \<in> set J"
      using fst_set_left_join [of A "transactions d"] unfolding J_def
      by (cases "left_join A (transactions d)") auto
    then have "key x \<in> set (sort (remdups (map key J)))" by simp
    then have g: "filter (\<lambda>r. key r = key x) J \<in> set (group_by key J)"
      unfolding group_by_def set_map by (rule image_eqI [OF refl])
    have "filter (\<lambda>r. key r = key x) J \<noteq> []"
      using x by (auto simp: filter_empty_conv)
    then have "select_group (filter (\<lambda>r. key r = key x) J) \<noteq> []"
      by (cases "filter (\<lambda>r. key r = key x) J") auto
    with g have "concat (map select_group (group_by key J)) \<noteq> []"
      by (auto simp: concat_eq_Nil_conv)
    then have "inventory_query d \<noteq> []"
      using q by (metis length_sort length_0_conv)
    with False show ?thesis by (simp add: A_def)
  qed
qed

lemma get_inventory_df_rows:
  "df_rows (get_inventory_df d)
     = map (\<lambda>r. inv_cells r @ [Num (round2 (r_stock_qty r * r_cost_price r))]) (inventory_query d)"
  by (simp add: get_inventory_df_def Let_def df_empty_def inventory_columns_def)

lemma get_inventory_df_columns:
  "df_columns (get_inventory_df d)
     = (if inventory_query d = [] then inventory_columns
        else inventory_columns @ [''stock_value_cost''])"
  by (simp add: get_inventory_df_def Let_def df_empty_def inventory_columns_def)

section \<open>C10: no active item\<close>

text \<open>
  Claim C10. When no item is active, \<open>get_inventory_df\<close> returns a frame without rows
  whose columns are those of the query: the column \<open>stock_value_cost\<close> is not there.
\<close>

theorem get_inventory_df_no_active_item:
  assumes "\<forall>i \<in> set (items d). i_active i \<noteq> 1"
  shows "df_rows (get_inventory_df d) = []
         \<and> df_columns (get_inventory_df d) = inventory_columns
         \<and> ''stock_value_cost'' \<notin> set (df_columns (get_inventory_df d))"
proof -
  from assms have "filter (\<lambda>i. i_active i = 1) (items d) = []"
    by (simp add: filter_empty_conv)
  then have "inventory_query d = []"
    by (simp add: inventory_query_empty_iff)
  then show ?thesis
    by (simp add: get_inventory_df_rows get_inventory_df_columns inventory_columns_def)
qed

theorem get_inventory_df_no_active_item_witness:
  "list_all (\<lambda>i. i_active i \<noteq> 1) (items db_inactive)
   \<and> df_rows (get_inventory_df db_inactive) = []
   \<and> df_columns (get_inventory_df db_inactive) = inventory_columns
   \<and> ''stock_value_cost'' \<notin> set (df_columns (get_inventory_df db_inactive))"
proof -
  have h: "\<forall>i \<in> set (items db_inactive). i_active i \<noteq> 1"
    by (simp add: db_inactive_def init_db_def)
  show ?thesis
    using get_inventory_df_no_active_item [OF h] h
    by (simp add: list_all_iff inventory_columns_def)
qed

text \<open>The column is there exactly when some item is active.\<close>

lemma get_inventory_df_valued:
  "(''stock_value_cost'' \<in> set (df_columns (get_inventory_df d)))
     \<longleftrightarrow> (\<exists>i \<in> set (items d). i_active i = 1)"
  by (auto simp: get_inventory_df_columns inventory_query_empty_iff inventory_columns_def
        filter_empty_conv)

section \<open>The row of an item in the valued frame\<close>

lemma get_inventory_df_rows_valued:
  "df_rows (get_inventory_df d) = map valued_cells (inventory_query d)"
  by (simp add: get_inventory_df_rows valued_cells_def)

lemma row_get_valued:
  assumes "inventory_query d \<noteq> []"
  shows "row_get (get_inventory_df d) (valued_cells r) ''id'' = Some (Num (of_int (r_id r)))"
    and "row_get (get_inventory_df d) (valued_cells r) ''stock_qty'' = Some (Num (r_stock_qty r))"
    and "row_get (get_inventory_df d) (valued_cells r) ''stock_value_cost''
           = Some (Num (round2 (r_stock_qty r * r_cost_price r)))"
  using assms
  by (simp_all add: row_get_def get_inventory_df_columns inventory_columns_def valued_cells_def
        inv_cells_def)

lemma rows_with_id_inventory:
  "rows_with_id (get_inventory_df d) iid
     = map valued_cells (filter (\<lambda>r. r_id r = iid) (inventory_query d))"
proof (cases "inventory_query d = []")
  case True
  then show ?thesis
    by (simp add: rows_with_id_def get_inventory_df_rows_valued)
next
  case False
  then show ?thesis
    by (simp add: rows_with_id_def get_inventory_df_rows_valued filter_map o_def row_get_valued)
qed

lemma filter_inventory_query:
  assumes "distinct (map i_id (items d))" "i \<in> set (items d)" "i_active i = 1"
  shows "filter (\<lambda>r. r_id r = i_id i) (inventory_query d) = [stock_row (transactions d) i]"
proof -
  define A where "A = filter (\<lambda>i. i_active i = 1) (items d)"
  have dA: "distinct (map i_id A)"
    using assms(1) unfolding A_def by (rule distinct_map_filter)
  have iA: "i \<in> set A"
    using assms by (simp add: A_def)
  have "mset (filter (\<lambda>r. r_id r = i_id i) (inventory_query d))
          = filter_mset (\<lambda>r. r_id r = i_id i) (mset (map (stock_row (transactions d)) A))"
    using mset_inventory_query [OF assms(1)] by (simp add: A_def)
  also have "\<dots> = mset (filter (\<lambda>r. r_id r = i_id i) (map (stock_row (transactions d)) A))"
    by simp
  also have "filter (\<lambda>r. r_id r = i_id i) (map (stock_row (transactions d)) A)
               = map (stock_row (transactions d)) (filter (\<lambda>j. i_id j = i_id i) A)"
    by (simp add: filter_map o_def stock_row_def)
  also have "filter (\<lambda>j. i_id j = i_id i) A = [i]"
    using dA iA by (rule filter_key_distinct)
  finally have "mset (filter (\<lambda>r. r_id r = i_id i) (inventory_query d))
                  = {#stock_row (transactions d) i#}"
    by simp
  then show ?thesis by (simp only: mset_single_iff)
qed

lemma inventory_row_of_item:
  assumes "distinct (map i_id (items d))" "i \<in> set (items d)" "i_active i = 1"
  shows "rows_with_id (get_inventory_df d) (i_id i) = [valued_cells (stock_row (transactions d) i)]"
  using filter_inventory_query [OF assms] by (simp add: rows_with_id_inventory)

lemma inventory_query_nonempty:
  "i \<in> set (items d) \<Longrightarrow> i_active i = 1 \<Longrightarrow> inventory_query d \<noteq> []"
  by (auto simp: inventory_query_empty_iff filter_empty_conv)



lemma round2_zero: "round2 0 = 0"
  by (simp add: round2_def round_half_even_def)

section \<open>C6: an item without movements\<close>

text \<open>
  Claim C6. Every active item without a transaction has its row in the frame of
  \<open>get_inventory_df\<close>, with \<open>stock_qty\<close> 0 and \<open>stock_value_cost\<close> 0.
\<close>

theorem item_without_movements:
  assumes "unique_item_ids d" "i \<in> set (items d)" "i_active i = 1"
    and "item_txns d (i_id i) = []"
  shows "\<exists>r. rows_with_id (get_inventory_df d) (i_id i) = [r]
           \<and> row_get (get_inventory_df d) r ''stock_qty'' = Some (Num 0)
           \<and> row_get (get_inventory_df d) r ''stock_value_cost'' = Some (Num 0)"
proof -
  let ?r = "stock_row (transactions d) i"
  have ne: "inventory_query d \<noteq> []"
    using assms(2,3) by (rule inventory_query_nonempty)
  have row: "rows_with_id (get_inventory_df d) (i_id i) = [valued_cells ?r]"
    using assms(1-3) by (simp add: inventory_row_of_item unique_item_ids_def)
  have q: "r_stock_qty ?r = 0"
    using assms(4) by (simp add: stock_row_def item_txns_def)
  show ?thesis
    using row row_get_valued [OF ne, of ?r] q by (simp add: round2_zero)
qed

theorem item_without_movements_witness:
  "unique_item_ids db_scenario \<and> items db_scenario ! 1 \<in> set (items db_scenario)
   \<and> i_active (items db_scenario ! 1) = 1 \<and> item_txns db_scenario 2 = []
   \<and> (\<exists>r. rows_with_id (get_inventory_df db_scenario) 2 = [r]
         \<and> row_get (get_inventory_df db_scenario) r ''stock_qty'' = Some (Num 0)
         \<and> row_get (get_inventory_df db_scenario) r ''stock_value_cost'' = Some (Num 0))"
proof -
  have h: "unique_item_ids db_scenario" "items db_scenario ! 1 \<in> set (items db_scenario)"
    "i_active (items db_scenario ! 1) = 1"
    by (simp_all add: unique_item_ids_def db_scenario_def)
  have i: "i_id (items db_scenario ! 1) = 2"
    by (simp add: db_scenario_def)
  have t: "item_txns db_scenario 2 = []"
    by (simp add: item_txns_def db_scenario_def)
  show ?thesis
    using item_without_movements [OF h] h i t by auto
qed

section \<open>C4: the CSV export\<close>

text \<open>The export is offered exactly when some item is active.\<close>

lemma export_csv_None: "export_csv d = None \<longleftrightarrow> (\<forall>i \<in> set (items d). i_active i \<noteq> 1)"
  by (auto simp: export_csv_def Let_def df_empty_def get_inventory_df_columns
        get_inventory_df_rows inventory_columns_def inventory_query_empty_iff filter_empty_conv)

text \<open>
  Claim C4, as the code has it. The header record of the export is the column list of
  the frame, which starts with \<open>id\<close>: nine names, not the eight of the claim. The
  data records are one for each active item, as their \<open>id\<close> fields show.
\<close>

theorem export_csv_header_and_rows:
  assumes "unique_item_ids d" "export_csv d = Some (header, records)"
  shows "header = [''id'', ''name'', ''category'', ''brand'', ''unit'', ''cost_price'',
                   ''sale_price'', ''stock_qty'', ''stock_value_cost'']
         \<and> length records = length (get_items_df d True)
         \<and> mset (map (\<lambda>r. row_get (get_inventory_df d) r ''id'') records)
             = mset (map (\<lambda>i. Some (Num (of_int (i_id i)))) (get_items_df d True))"
proof -
  from assms(2) have ne: "inventory_query d \<noteq> []"
    and h: "header = df_columns (get_inventory_df d)"
    and r: "records = df_rows (get_inventory_df d)"
    by (auto simp: export_csv_def Let_def df_empty_def to_csv_def get_inventory_df_rows
          split: if_splits)
  have m: "mset (inventory_query d)
             = mset (map (stock_row (transactions d)) (get_items_df d True))"
    using assms(1) by (simp add: mset_inventory_query unique_item_ids_def get_items_df_def)
  have "map (\<lambda>r. row_get (get_inventory_df d) r ''id'') records
          = map (\<lambda>r. Some (Num (of_int (r_id r)))) (inventory_query d)"
    using ne by (simp add: r get_inventory_df_rows_valued o_def row_get_valued)
  then have "mset (map (\<lambda>r. row_get (get_inventory_df d) r ''id'') records)
          = image_mset (\<lambda>r. Some (Num (of_int (r_id r)))) (mset (inventory_query d))"
    by simp
  also have "\<dots> = mset (map (\<lambda>i. Some (Num (of_int (i_id i)))) (get_items_df d True))"
    unfolding m by (simp add: multiset.map_comp stock_row_def o_def)
  finally have ids: "mset (map (\<lambda>r. row_get (get_inventory_df d) r ''id'') records)
          = mset (map (\<lambda>i. Some (Num (of_int (i_id i)))) (get_items_df d True))" .
  have "length records = length (inventory_query d)"
    by (simp add: r get_inventory_df_rows)
  also have "\<dots> = length (get_items_df d True)"
    using m by (metis length_map size_mset)
  finally have len: "length records = length (get_items_df d True)" .
  show ?thesis
    using ne h len ids by (simp add: get_inventory_df_columns inventory_columns_def)
qed

theorem export_csv_header_and_rows_witness:
  "unique_item_ids db_scenario
   \<and> (\<exists>records. export_csv db_scenario =
          Some ([''id'', ''name'', ''category'', ''brand'', ''unit'', ''cost_price'',
                 ''sale_price'', ''stock_qty'', ''stock_value_cost''], records)
        \<and> length records = 2)"
proof -
  have u: "unique_item_ids db_scenario"
    by (simp add: unique_item_ids_def db_scenario_def)
  have "export_csv db_scenario \<noteq> None"
    by (simp add: export_csv_None db_scenario_def)
  then obtain header records where e: "export_csv db_scenario = Some (header, records)"
    by auto
  have "length (get_items_df db_scenario True) = 2"
    by (simp add: get_items_df_def db_scenario_def)
  then show ?thesis
    using export_csv_header_and_rows [OF u e] u e by simp
qed

text \<open>
  The claim as stated fails on the scenario store: an export exists and its header is not
  the list of eight names.
\<close>

theorem export_csv_header_counterexample:
  "export_csv db_scenario \<noteq> None
   \<and> map_option fst (export_csv db_scenario)
       \<noteq> Some [''name'', ''category'', ''brand'', ''unit'', ''cost_price'', ''sale_price'',
                ''stock_qty'', ''stock_value_cost'']"
proof -
  have a: "\<exists>i \<in> set (items db_scenario). i_active i = 1"
    by (simp add: db_scenario_def)
  then have "inventory_query db_scenario \<noteq> []"
    by (auto simp: inventory_query_empty_iff filter_empty_conv)
  then have "export_csv db_scenario
               = Some (inventory_columns @ [''stock_value_cost''],
                       df_rows (get_inventory_df db_scenario))"
    by (simp add: export_csv_def Let_def df_empty_def to_csv_def get_inventory_df_columns
          get_inventory_df_rows inventory_columns_def)
  then show ?thesis
    by (simp add: inventory_columns_def)
qed

section \<open>C2: a quantity that is not positive\<close>

text \<open>
  Claim C2. \<open>record_txn\<close> with \<open>qty \<le> 0\<close> raises the ValueError and leaves the
  store as it was: no transaction is inserted and the frame of \<open>get_inventory_df\<close>,
  hence every stock position, is the same.
\<close>

theorem record_txn_rejects_nonpositive_qty:
  assumes "qty \<le> 0"
  shows "fst (record_txn e d item_id txn_type qty unit_price party_id ref_no txn_date remarks)
           = Inl (ValueError ''Qty must be > 0'')
         \<and> snd (record_txn e d item_id txn_type qty unit_price party_id ref_no txn_date remarks) = d
         \<and> transactions (snd (record_txn e d item_id txn_type qty unit_price party_id ref_no
                                  txn_date remarks)) = transactions d
         \<and> get_inventory_df (snd (record_txn e d item_id txn_type qty unit_price party_id ref_no
                                      txn_date remarks)) = get_inventory_df d"
  using assms by (simp add: record_txn_def)

theorem record_txn_rejects_nonpositive_qty_witness:
  "(0 :: rat) \<le> 0
   \<and> fst (record_txn env0 db_scenario 1 ''IN'' 0 None None None None None)
       = Inl (ValueError ''Qty must be > 0'')
   \<and> snd (record_txn env0 db_scenario 1 ''IN'' 0 None None None None None) = db_scenario"
  using record_txn_rejects_nonpositive_qty [of 0 env0 db_scenario 1 "''IN''" None None None None None]
  by simp

section \<open>C9: a transaction type outside IN, OUT, ADJUST\<close>

text \<open>
  Claim C9. With \<open>qty > 0\<close>, \<open>record_txn\<close> does nothing but the INSERT (it does not
  look at the type itself), and for a type other than IN, OUT and ADJUST the INSERT
  fails on the CHECK constraint and leaves the store, so the transaction log, as it was.
\<close>

theorem record_txn_unknown_type:
  assumes "0 < qty" "txn_type \<noteq> ''IN''" "txn_type \<noteq> ''OUT''" "txn_type \<noteq> ''ADJUST''"
  shows "record_txn e d item_id txn_type qty unit_price party_id ref_no txn_date remarks
           = insert_transaction e d item_id txn_type qty unit_price party_id ref_no
               (case txn_date of None \<Rightarrow> today e | Some s \<Rightarrow> if s = [] then today e else s) remarks
         \<and> record_txn e d item_id txn_type qty unit_price party_id ref_no txn_date remarks
           = (Inl (IntegrityError CHECK), d)"
  using assms by (simp add: record_txn_def insert_transaction_def)

theorem record_txn_unknown_type_witness:
  "(0 :: rat) < 5 \<and> ''RETURN'' \<noteq> ''IN'' \<and> ''RETURN'' \<noteq> ''OUT'' \<and> ''RETURN'' \<noteq> ''ADJUST''
   \<and> record_txn env0 db_scenario 1 ''RETURN'' 5 None None None None None
       = (Inl (IntegrityError CHECK), db_scenario)"
proof -
  have h: "(0 :: rat) < 5" "''RETURN'' \<noteq> ''IN''" "''RETURN'' \<noteq> ''OUT''" "''RETURN'' \<noteq> ''ADJUST''"
    by simp_all
  show ?thesis
    using record_txn_unknown_type
            [OF h, THEN conjunct2, of env0 db_scenario 1 None None None None None] h
    by simp
qed

section \<open>C8: update of the prices\<close>

text \<open>
  Claim C8. \<open>update_item_basic\<close> keeps the number and order of the items, the parties
  and the transactions. An item with another id is unchanged. In an item with the given
  id, a price passed as \<open>None\<close> keeps its value, a price passed is stored, and name,
  category, brand, unit, active and notes are unchanged.
\<close>

theorem update_item_basic_frame:
  "parties (update_item_basic d item_id cost_price sale_price) = parties d
   \<and> transactions (update_item_basic d item_id cost_price sale_price) = transactions d
   \<and> length (items (update_item_basic d item_id cost_price sale_price)) = length (items d)
   \<and> (\<forall>k < length (items d).
        i_id (items (update_item_basic d item_id cost_price sale_price) ! k) = i_id (items d ! k)
        \<and> i_name (items (update_item_basic d item_id cost_price sale_price) ! k) = i_name (items d ! k)
        \<and> i_category (items (update_item_basic d item_id cost_price sale_price) ! k) = i_category (items d ! k)
        \<and> i_brand (items (update_item_basic d item_id cost_price sale_price) ! k) = i_brand (items d ! k)
        \<and> i_unit (items (update_item_basic d item_id cost_price sale_price) ! k) = i_unit (items d ! k)
        \<and> i_active (items (update_item_basic d item_id cost_price sale_price) ! k) = i_active (items d ! k)
        \<and> i_notes (items (update_item_basic d item_id cost_price sale_price) ! k) = i_notes (items d ! k)
        \<and> (i_id (items d ! k) \<noteq> item_id \<longrightarrow>
             items (update_item_basic d item_id cost_price sale_price) ! k = items d ! k)
        \<and> (i_id (items d ! k) = item_id \<longrightarrow>
             i_cost_price (items (update_item_basic d item_id cost_price sale_price) ! k)
               = (case cost_price of None \<Rightarrow> i_cost_price (items d ! k) | Some v \<Rightarrow> v)
             \<and> i_sale_price (items (update_item_basic d item_id cost_price sale_price) ! k)
               = (case sale_price of None \<Rightarrow> i_sale_price (items d ! k) | Some v \<Rightarrow> v)))"
  by (simp add: update_item_basic_def)

theorem update_item_basic_frame_witness:
  "(0 :: nat) < length (items db_scenario) \<and> i_id (items db_scenario ! 0) = 1
   \<and> (1 :: nat) < length (items db_scenario) \<and> i_id (items db_scenario ! 1) \<noteq> 1
   \<and> i_cost_price (items (update_item_basic db_scenario 1 (Some 120) None) ! 0) = 120
   \<and> i_sale_price (items (update_item_basic db_scenario 1 (Some 120) None) ! 0) = 150
   \<and> i_name (items (update_item_basic db_scenario 1 (Some 120) None) ! 0) = ''X''
   \<and> items (update_item_basic db_scenario 1 (Some 120) None) ! 1 = items db_scenario ! 1"
proof -
  have l: "(0 :: nat) < length (items db_scenario)" "(1 :: nat) < length (items db_scenario)"
    by (simp_all add: db_scenario_def)
  have i: "i_id (items db_scenario ! 0) = 1" "i_id (items db_scenario ! 1) \<noteq> 1"
    "i_sale_price (items db_scenario ! 0) = 150" "i_name (items db_scenario ! 0) = ''X''"
    by (simp_all add: db_scenario_def)
  show ?thesis
    using update_item_basic_frame [of db_scenario 1 "Some 120" None] l i by simp
qed

section \<open>C5: find-or-create of a party\<close>

lemma upsert_party_found:
  assumes "strip n \<noteq> []"
    and "filter (\<lambda>p. p_type p = ty \<and> p_name p = strip n) (parties d) = row # rest"
  shows "upsert_party d ty (Some n) ph ad = (Inr (Some (p_id row)), d)"
  using assms by (simp add: upsert_party_def)

lemma upsert_party_created:
  assumes "strip n \<noteq> []" "ty = ''supplier'' \<or> ty = ''customer''"
    and "filter (\<lambda>p. p_type p = ty \<and> p_name p = strip n) (parties d) = []"
  shows "upsert_party d ty (Some n) ph ad
           = (Inr (Some (next_rowid (seq_parties d) (map p_id (parties d)))),
              d\<lparr>parties := parties d @
                    [\<lparr>p_id = next_rowid (seq_parties d) (map p_id (parties d)), p_type = ty,
                      p_name = strip n, p_phone = ph, p_address = ad\<rparr>],
                seq_parties := next_rowid (seq_parties d) (map p_id (parties d))\<rparr>)"
  using assms by (auto simp: upsert_party_def insert_party_def Let_def)

text \<open>
  Claim C5. For a party type of the schema and a name that is not blank, \<open>upsert_party\<close>
  returns an identity; a second call with a name of the same trimmed form returns the
  same identity and leaves the store as the first call left it, whatever phone and
  address it is given. The first call adds one row, holding its phone and address, when
  no party of that type and name existed, and none otherwise, so the type and name never
  occur twice more than before; a store where no two parties share type and name stays so.
\<close>

theorem upsert_party_idempotent:
  assumes "party_type = ''supplier'' \<or> party_type = ''customer''"
    and "strip name \<noteq> []" and "strip name' = strip name"
  shows "\<exists>pid d1.
           upsert_party d party_type (Some name) phone address = (Inr (Some pid), d1)
           \<and> upsert_party d1 party_type (Some name') phone' address' = (Inr (Some pid), d1)
           \<and> length (filter (\<lambda>p. p_type p = party_type \<and> p_name p = strip name) (parties d1))
               = max 1 (length (filter (\<lambda>p. p_type p = party_type \<and> p_name p = strip name) (parties d)))
           \<and> (filter (\<lambda>p. p_type p = party_type \<and> p_name p = strip name) (parties d) = [] \<longrightarrow>
                parties d1 = parties d @
                  [\<lparr>p_id = pid, p_type = party_type, p_name = strip name,
                    p_phone = phone, p_address = address\<rparr>])
           \<and> (filter (\<lambda>p. p_type p = party_type \<and> p_name p = strip name) (parties d) \<noteq> [] \<longrightarrow>
                d1 = d)
           \<and> (party_names_unique d \<longrightarrow> party_names_unique d1)"
proof (cases "filter (\<lambda>p. p_type p = party_type \<and> p_name p = strip name) (parties d)")
  case Nil
  let ?pid = "next_rowid (seq_parties d) (map p_id (parties d))"
  let ?new = "\<lparr>p_id = ?pid, p_type = party_type, p_name = strip name,
               p_phone = phone, p_address = address\<rparr>"
  let ?d1 = "d\<lparr>parties := parties d @ [?new], seq_parties := ?pid\<rparr>"
  have first: "upsert_party d party_type (Some name) phone address = (Inr (Some ?pid), ?d1)"
    using upsert_party_created [OF assms(2) assms(1) Nil, of phone address] by simp
  have f1: "filter (\<lambda>p. p_type p = party_type \<and> p_name p = strip name') (parties ?d1) = [?new]"
    using Nil assms(3) by simp
  have second: "upsert_party ?d1 party_type (Some name') phone' address' = (Inr (Some ?pid), ?d1)"
    using upsert_party_found [of name' party_type ?d1 ?new "[]" phone' address'] f1 assms(2,3)
    by simp
  have absent: "(party_type, strip name) \<notin> set (map (\<lambda>p. (p_type p, p_name p)) (parties d))"
    using Nil by (auto simp: filter_empty_conv)
  have uniq: "party_names_unique d \<longrightarrow> party_names_unique ?d1"
    using absent by (simp add: party_names_unique_def)
  show ?thesis
    using first second Nil uniq by (intro exI [of _ ?pid] exI [of _ ?d1]) simp
next
  case (Cons row rest)
  have first: "upsert_party d party_type (Some name) phone address = (Inr (Some (p_id row)), d)"
    using assms(2) Cons by (rule upsert_party_found)
  have second: "upsert_party d party_type (Some name') phone' address' = (Inr (Some (p_id row)), d)"
    using upsert_party_found [of name' party_type d row rest phone' address'] Cons assms(2,3)
    by simp
  show ?thesis
    using first second Cons by (intro exI [of _ "p_id row"] exI [of _ d]) simp
qed

lemma strip_example: "strip '' Ali Traders '' = ''Ali Traders''" "strip ''Ali Traders'' = ''Ali Traders''"
  by (simp_all add: strip_def is_space_def)

theorem upsert_party_idempotent_witness:
  "(''supplier'' = ''supplier'' \<or> ''supplier'' = ''customer'')
   \<and> strip '' Ali Traders '' \<noteq> [] \<and> strip ''Ali Traders'' = strip '' Ali Traders ''
   \<and> upsert_party init_db ''supplier'' (Some '' Ali Traders '') (Some ''0300'') None
       = (Inr (Some 1),
          init_db\<lparr>parties := [\<lparr>p_id = 1, p_type = ''supplier'', p_name = ''Ali Traders'',
                                p_phone = Some ''0300'', p_address = None\<rparr>],
                  seq_parties := 1\<rparr>)
   \<and> upsert_party
         (init_db\<lparr>parties := [\<lparr>p_id = 1, p_type = ''supplier'', p_name = ''Ali Traders'',
                                p_phone = Some ''0300'', p_address = None\<rparr>],
                  seq_parties := 1\<rparr>)
         ''supplier'' (Some ''Ali Traders'') (Some ''0999'') (Some ''Saddar'')
       = (Inr (Some 1),
          init_db\<lparr>parties := [\<lparr>p_id = 1, p_type = ''supplier'', p_name = ''Ali Traders'',
                                p_phone = Some ''0300'', p_address = None\<rparr>],
                  seq_parties := 1\<rparr>)"
proof -
  have h: "''supplier'' = ''supplier'' \<or> ''supplier'' = ''customer''"
    "strip '' Ali Traders '' \<noteq> []" "strip ''Ali Traders'' = strip '' Ali Traders ''"
    by (simp_all add: strip_example)
  have e: "filter (\<lambda>p. p_type p = ''supplier'' \<and> p_name p = strip '' Ali Traders '') (parties init_db) = []"
    by (simp add: init_db_def)
  obtain pid d1 where
    a: "upsert_party init_db ''supplier'' (Some '' Ali Traders '') (Some ''0300'') None
          = (Inr (Some pid), d1)"
    and b: "upsert_party d1 ''supplier'' (Some ''Ali Traders'') (Some ''0999'') (Some ''Saddar'')
          = (Inr (Some pid), d1)"
    and c: "parties d1 = parties init_db @
              [\<lparr>p_id = pid, p_type = ''supplier'', p_name = strip '' Ali Traders '',
                p_phone = Some ''0300'', p_address = None\<rparr>]"
    using upsert_party_idempotent [OF h, of init_db "Some ''0300''" None "Some ''0999''" "Some ''Saddar''"] e
    by blast
  have v: "upsert_party init_db ''supplier'' (Some '' Ali Traders '') (Some ''0300'') None
       = (Inr (Some 1),
          init_db\<lparr>parties := [\<lparr>p_id = 1, p_type = ''supplier'', p_name = ''Ali Traders'',
                                p_phone = Some ''0300'', p_address = None\<rparr>],
                  seq_parties := 1\<rparr>)"
    by (simp add: upsert_party_def insert_party_def strip_example init_db_def next_rowid_def)
  from a v have "pid = 1" and "d1 = init_db\<lparr>parties := [\<lparr>p_id = 1, p_type = ''supplier'', p_name = ''Ali Traders'',
                                p_phone = Some ''0300'', p_address = None\<rparr>],
                  seq_parties := 1\<rparr>"
    by simp_all
  with b v h show ?thesis by simp
qed

section \<open>C7: stock-out beyond the available stock\<close>






section \<open>Integrity kept by the operations\<close>

text \<open>
  The empty store has unique item ids, transactions that refer to items and increasing
  transaction ids, and \<open>add_item\<close>, \<open>update_item_basic\<close>, \<open>upsert_party\<close> and
  \<open>record_txn\<close> keep all three; \<open>record_txn\<close> keeps the second when it is given the
  id of an item of the store, as its callers give it, or when foreign keys are enforced.
\<close>

lemma fold_max_ge: "s \<le> fold max xs (s :: int)"
proof (induction xs arbitrary: s)
  case Nil
  show ?case by simp
next
  case (Cons x xs)
  have "max x s \<le> fold max xs (max x s)" by (rule Cons.IH)
  then show ?case by simp
qed

lemma fold_max_ge_elem: "x \<in> set xs \<Longrightarrow> x \<le> fold max xs (s :: int)"
proof (induction xs arbitrary: s)
  case Nil
  then show ?case by simp
next
  case (Cons y ys)
  show ?case
  proof (cases "x = y")
    case True
    have "max y s \<le> fold max ys (max y s)" by (rule fold_max_ge)
    with True show ?thesis by simp
  next
    case False
    with Cons.prems have "x \<in> set ys" by simp
    then have "x \<le> fold max ys (max y s)" by (rule Cons.IH)
    then show ?thesis by simp
  qed
qed

lemma next_rowid_fresh: "x \<in> set ids \<Longrightarrow> x < next_rowid s ids"
  using fold_max_ge_elem [of x ids s] by (simp add: next_rowid_def)

lemma init_db_integrity:
  "unique_item_ids init_db" "item_refs_exist init_db" "txn_ids_increasing init_db"
  by (simp_all add: unique_item_ids_def item_refs_exist_def txn_ids_increasing_def init_db_def)

lemma add_item_integrity:
  assumes "unique_item_ids d" "item_refs_exist d" "txn_ids_increasing d"
  shows "unique_item_ids (add_item d name category brand unit cost_price sale_price notes)"
    and "item_refs_exist (add_item d name category brand unit cost_price sale_price notes)"
    and "txn_ids_increasing (add_item d name category brand unit cost_price sale_price notes)"
proof -
  have "next_rowid (seq_items d) (map i_id (items d)) \<notin> set (map i_id (items d))"
    using next_rowid_fresh [of "next_rowid (seq_items d) (map i_id (items d))" "map i_id (items d)"
            "seq_items d"]
    by auto
  then show "unique_item_ids (add_item d name category brand unit cost_price sale_price notes)"
    using assms(1) by (simp add: unique_item_ids_def add_item_def Let_def)
  show "item_refs_exist (add_item d name category brand unit cost_price sale_price notes)"
    using assms(2) by (auto simp: item_refs_exist_def add_item_def Let_def list_all_iff)
  show "txn_ids_increasing (add_item d name category brand unit cost_price sale_price notes)"
    using assms(3) by (simp add: txn_ids_increasing_def add_item_def Let_def)
qed

lemma update_item_basic_integrity:
  assumes "unique_item_ids d" "item_refs_exist d" "txn_ids_increasing d"
  shows "unique_item_ids (update_item_basic d item_id cost_price sale_price)"
    and "item_refs_exist (update_item_basic d item_id cost_price sale_price)"
    and "txn_ids_increasing (update_item_basic d item_id cost_price sale_price)"
proof -
  have ids: "map i_id (items (update_item_basic d item_id cost_price sale_price)) = map i_id (items d)"
    by (simp add: update_item_basic_def o_def)
  show "unique_item_ids (update_item_basic d item_id cost_price sale_price)"
    using assms(1) unfolding unique_item_ids_def ids .
  show "item_refs_exist (update_item_basic d item_id cost_price sale_price)"
    using assms(2) unfolding item_refs_exist_def ids by (simp add: update_item_basic_def)
  show "txn_ids_increasing (update_item_basic d item_id cost_price sale_price)"
    using assms(3) by (simp add: txn_ids_increasing_def update_item_basic_def)
qed

lemma upsert_party_tables:
  "items (snd (upsert_party d party_type name phone address)) = items d
   \<and> transactions (snd (upsert_party d party_type name phone address)) = transactions d"
  by (simp add: upsert_party_def insert_party_def Let_def split: option.splits list.splits)

lemma upsert_party_integrity:
  assumes "unique_item_ids d" "item_refs_exist d" "txn_ids_increasing d"
  shows "unique_item_ids (snd (upsert_party d party_type name phone address))"
    and "item_refs_exist (snd (upsert_party d party_type name phone address))"
    and "txn_ids_increasing (snd (upsert_party d party_type name phone address))"
  using assms upsert_party_tables [of d party_type name phone address]
  by (simp_all add: unique_item_ids_def item_refs_exist_def txn_ids_increasing_def)

lemma record_txn_integrity:
  assumes "unique_item_ids d" "item_refs_exist d" "txn_ids_increasing d"
    and "foreign_keys e \<or> item_id \<in> set (map i_id (items d))"
  shows "unique_item_ids (snd (record_txn e d item_id txn_type qty unit_price party_id ref_no txn_date remarks))"
    and "item_refs_exist (snd (record_txn e d item_id txn_type qty unit_price party_id ref_no txn_date remarks))"
    and "txn_ids_increasing (snd (record_txn e d item_id txn_type qty unit_price party_id ref_no txn_date remarks))"
proof -
  let ?tid = "next_rowid (seq_transactions d) (map t_id (transactions d))"
  have fresh: "\<forall>x \<in> set (map t_id (transactions d)). x < ?tid"
    using next_rowid_fresh by blast
  show "unique_item_ids (snd (record_txn e d item_id txn_type qty unit_price party_id ref_no txn_date remarks))"
    using assms(1) by (simp add: unique_item_ids_def record_txn_def insert_transaction_def Let_def)
  show "item_refs_exist (snd (record_txn e d item_id txn_type qty unit_price party_id ref_no txn_date remarks))"
    using assms(2,4)
    by (auto simp: item_refs_exist_def record_txn_def insert_transaction_def Let_def list_all_iff)
  show "txn_ids_increasing (snd (record_txn e d item_id txn_type qty unit_price party_id ref_no txn_date remarks))"
    using assms(3) fresh
    by (auto simp: txn_ids_increasing_def record_txn_def insert_transaction_def Let_def
          sorted_wrt_append)
qed

lemma recent_join_fst:
  assumes "unique_item_ids d" "item_refs_exist d"
  shows "map fst (recent_join d) = transactions d"
proof -
  have one: "\<And>t. t \<in> set (transactions d) \<Longrightarrow>
           \<exists>i. filter (\<lambda>i. i_id i = t_item_id t) (items d) = [i]"
  proof -
    fix t assume "t \<in> set (transactions d)"
    then have "t_item_id t \<in> set (map i_id (items d))"
      using assms(2) by (simp add: item_refs_exist_def list_all_iff)
    then obtain i where i: "i \<in> set (items d)" "i_id i = t_item_id t" by auto
    have "filter (\<lambda>j. i_id j = i_id i) (items d) = [i]"
      using assms(1) i(1) unfolding unique_item_ids_def by (rule filter_key_distinct)
    then show "\<exists>i. filter (\<lambda>i. i_id i = t_item_id t) (items d) = [i]"
      using i(2) by auto
  qed
  have "\<And>ts. set ts \<subseteq> set (transactions d) \<Longrightarrow>
          map fst (concat (map (\<lambda>t. map (\<lambda>i. (t, i))
                    (filter (\<lambda>i. i_id i = t_item_id t) (items d))) ts)) = ts"
  proof -
    fix ts show "set ts \<subseteq> set (transactions d) \<Longrightarrow>
          map fst (concat (map (\<lambda>t. map (\<lambda>i. (t, i))
                    (filter (\<lambda>i. i_id i = t_item_id t) (items d))) ts)) = ts"
    proof (induction ts)
      case Nil
      show ?case by simp
    next
      case (Cons t ts)
      then obtain i where "filter (\<lambda>i. i_id i = t_item_id t) (items d) = [i]"
        using one [of t] by auto
      then show ?case using Cons by simp
    qed
  qed
  then show ?thesis
    by (simp add: recent_join_def)
qed

lemma sorted_wrt_ties:
  assumes "sorted_wrt S xs" "\<And>k. sorted_wrt P (filter (\<lambda>y. f y = k) xs)"
  shows "sorted_wrt (\<lambda>a b. S a b \<and> (f a = f b \<longrightarrow> P a b)) xs"
  using assms
proof (induction xs)
  case Nil
  show ?case by simp
next
  case (Cons x xs)
  have tail: "\<And>k. sorted_wrt P (filter (\<lambda>y. f y = k) xs)"
  proof -
    fix k show "sorted_wrt P (filter (\<lambda>y. f y = k) xs)"
      using Cons.prems(2) [of k] by (cases "f x = k") simp_all
  qed
  have head: "\<forall>y \<in> set xs. f x = f y \<longrightarrow> P x y"
  proof (intro ballI impI)
    fix y assume "y \<in> set xs" "f x = f y"
    then have "y \<in> set (filter (\<lambda>z. f z = f x) xs)" by simp
    then show "P x y"
      using Cons.prems(2) [of "f x"] by simp
  qed
  show ?case
    using Cons.prems(1) Cons.IH [OF _ tail] head by simp
qed

lemma order_by_created_at_desc_mset: "mset (order_by_created_at_desc rows) = mset rows"
  by (simp add: order_by_created_at_desc_def)

lemma order_by_created_at_desc_sorted:
  "sorted_wrt (\<lambda>a b. t_created_at (fst b) \<le> t_created_at (fst a)) (order_by_created_at_desc rows)"
proof -
  let ?f = "\<lambda>ti :: txn \<times> item. t_created_at (fst ti)"
  have "sorted (map ?f (sort_key ?f (rev rows)))"
    by (rule sorted_sort_key)
  then have "sorted_wrt (\<lambda>a b. ?f a \<le> ?f b) (sort_key ?f (rev rows))"
    by (simp add: sorted_wrt_map)
  then show ?thesis
    by (simp add: order_by_created_at_desc_def sorted_wrt_rev)
qed

lemma order_by_created_at_desc_stable:
  "filter (\<lambda>ti. t_created_at (fst ti) = k) (order_by_created_at_desc rows)
     = filter (\<lambda>ti. t_created_at (fst ti) = k) rows"
proof -
  let ?f = "\<lambda>ti :: txn \<times> item. t_created_at (fst ti)"
  have "filter (\<lambda>ti. ?f ti = k) (sort_key ?f (rev rows)) = filter (\<lambda>ti. ?f ti = k) (rev rows)"
    by (rule sort_key_stable)
  then show ?thesis
    by (simp add: order_by_created_at_desc_def rev_filter [symmetric])
qed

section \<open>C3: the recent-transactions listing\<close>

lemma order_by_created_at_desc_newer_first:
  assumes "sorted_wrt (\<lambda>a b. t_id (fst a) < t_id (fst b)) rows"
  shows "sorted_wrt newer_first (order_by_created_at_desc rows)"
proof -
  let ?f = "\<lambda>ti :: txn \<times> item. t_created_at (fst ti)"
  let ?S = "\<lambda>a b :: txn \<times> item. ?f b \<le> ?f a"
  let ?P = "\<lambda>a b :: txn \<times> item. t_id (fst a) < t_id (fst b)"
  have ties: "\<And>k. sorted_wrt ?P (filter (\<lambda>y. ?f y = k) (order_by_created_at_desc rows))"
    using assms by (simp add: order_by_created_at_desc_stable sorted_wrt_filter)
  have "sorted_wrt (\<lambda>a b. ?S a b \<and> (?f a = ?f b \<longrightarrow> ?P a b)) (order_by_created_at_desc rows)"
    using order_by_created_at_desc_sorted ties by (rule sorted_wrt_ties)
  then show ?thesis
    by (rule sorted_wrt_mono_rel [rotated]) (auto simp: newer_first_def)
qed

text \<open>
  Claim C3. On a store whose item ids are unique and whose transactions each refer to an
  item and stand in rowid order, the frame shown holds the first 200 rows of the join
  sorted on \<open>created_at\<close>, the latest first, rows of equal \<open>created_at\<close> in
  ascending id. Every transaction is in the join once, so the frame has as many rows as
  there are transactions, up to 200: at most 200, and exactly 200 when 201 or more exist.
\<close>

theorem recent_transactions_listing:
  assumes "unique_item_ids d" "item_refs_exist d" "txn_ids_increasing d"
  shows "df_rows (recent_transactions d) = map recent_select (recent_rows d)
         \<and> recent_rows d = take 200 (order_by_created_at_desc (recent_join d))
         \<and> map fst (recent_join d) = transactions d
         \<and> mset (order_by_created_at_desc (recent_join d)) = mset (recent_join d)
         \<and> sorted_wrt newer_first (order_by_created_at_desc (recent_join d))
         \<and> sorted_wrt newer_first (recent_rows d)
         \<and> length (df_rows (recent_transactions d)) = min 200 (length (transactions d))
         \<and> length (df_rows (recent_transactions d)) \<le> 200
         \<and> (201 \<le> length (transactions d) \<longrightarrow> length (df_rows (recent_transactions d)) = 200)"
proof -
  have j: "map fst (recent_join d) = transactions d"
    using assms(1,2) by (rule recent_join_fst)
  have "sorted_wrt (<) (map t_id (map fst (recent_join d)))"
    using assms(3) by (simp add: j txn_ids_increasing_def)
  then have "sorted_wrt (\<lambda>a b. t_id (fst a) < t_id (fst b)) (recent_join d)"
    by (simp add: sorted_wrt_map)
  then have s: "sorted_wrt newer_first (order_by_created_at_desc (recent_join d))"
    by (rule order_by_created_at_desc_newer_first)
  then have s200: "sorted_wrt newer_first (recent_rows d)"
    by (simp add: recent_rows_def limit_def sorted_wrt_take)
  have "length (recent_join d) = length (transactions d)"
    using j by (metis length_map)
  then have "length (order_by_created_at_desc (recent_join d)) = length (transactions d)"
    using order_by_created_at_desc_mset [of "recent_join d"] by (metis size_mset)
  then have l: "length (df_rows (recent_transactions d)) = min 200 (length (transactions d))"
    by (simp add: recent_transactions_def recent_rows_def limit_def min.commute)
  show ?thesis
    using j s s200 l
    by (simp add: recent_transactions_def recent_rows_def limit_def order_by_created_at_desc_mset)
qed

text \<open>
  On the scenario store, whose transactions 1 and 2 were created in the same second and
  3 later, the listing shows 3, 1, 2.
\<close>

lemma recent_rows_scenario:
  "map (\<lambda>ti. t_id (fst ti)) (recent_rows db_scenario) = [3, 1, 2]"
  by (simp add: recent_rows_def limit_def order_by_created_at_desc_def recent_join_def
        db_scenario_def)

text \<open>
  On the store of 201 transactions the listing shows those of id 102 to 201, then those
  of id 1 to 100; the transaction of id 101 is the one left out.
\<close>

lemma sorted_map_const: "\<forall>x \<in> set xs. f x = c \<Longrightarrow> sorted (map f xs)"
  by (induction xs) auto

lemma order_by_two_groups:
  assumes "\<forall>a \<in> set A. t_created_at (fst a) = c0" "\<forall>b \<in> set B. t_created_at (fst b) = c1"
    and "c0 < c1"
  shows "order_by_created_at_desc (A @ B) = B @ A"
proof -
  let ?f = "\<lambda>ti :: txn \<times> item. t_created_at (fst ti)"
  have fa: "\<And>k. filter (\<lambda>x. ?f k = ?f x) (rev A) = (if ?f k = c0 then rev A else [])"
    using assms(1) by (auto simp: filter_empty_conv filter_id_conv)
  have fb: "\<And>k. filter (\<lambda>x. ?f k = ?f x) (rev B) = (if ?f k = c1 then rev B else [])"
    using assms(2) by (auto simp: filter_empty_conv filter_id_conv)
  have "sort_key ?f (rev B @ rev A) = rev A @ rev B"
  proof (rule properties_for_sort_key)
    show "mset (rev A @ rev B) = mset (rev B @ rev A)"
      by (simp add: union_commute)
    show "\<And>k. k \<in> set (rev A @ rev B) \<Longrightarrow>
            filter (\<lambda>x. ?f k = ?f x) (rev A @ rev B) = filter (\<lambda>x. ?f k = ?f x) (rev B @ rev A)"
      using assms(3) by (auto simp: fa fb)
    have "sorted (map ?f (rev A))"
      by (rule sorted_map_const [of _ _ c0]) (simp add: assms(1))
    moreover have "sorted (map ?f (rev B))"
      by (rule sorted_map_const [of _ _ c1]) (simp add: assms(2))
    ultimately
    show "sorted (map ?f (rev A @ rev B))"
      using assms by (auto simp: sorted_append)
  qed
  then show ?thesis
    by (simp add: order_by_created_at_desc_def)
qed

lemma recent_rows_db_many:
  "map (\<lambda>ti. t_id (fst ti)) (recent_rows db_many) = map (\<lambda>k. int k + 1) ([101..<201] @ [0..<100])"
proof -
  define tx where "tx = (\<lambda>k :: nat. \<lparr>t_id = int k + 1, t_item_id = 1, t_txn_type = ''IN'', t_qty = 1,
                   t_unit_price = None, t_party_id = None, t_ref_no = None,
                   t_txn_date = ''2024-05-01'', t_remarks = None,
                   t_created_at = (if k < 101 then ''2024-05-01 10:00:00''
                                   else ''2024-05-01 10:00:01'')\<rparr>)"
  define g where "g = (\<lambda>k. (tx k, hd (items db_many)))"
  have ts: "transactions db_many = map tx [0..<201]"
    by (simp add: db_many_def tx_def)
  have "recent_join db_many = concat (map (\<lambda>k. [g k]) [0..<201])"
    by (simp add: recent_join_def ts g_def o_def tx_def) (simp add: db_many_def)
  also have "\<dots> = map g [0..<201]"
    by (rule concat_map_singleton) simp
  also have "[0..<201] = [0..<101] @ [101..<201]"
    using upt_add_eq_append [of 0 101 100] by simp
  finally have j: "recent_join db_many = map g [0..<101] @ map g [101..<201]"
    by simp
  have "order_by_created_at_desc (map g [0..<101] @ map g [101..<201])
          = map g [101..<201] @ map g [0..<101]"
    by (rule order_by_two_groups [of _ "''2024-05-01 10:00:00''" _ "''2024-05-01 10:00:01''"])
       (auto simp: g_def tx_def)
  moreover have "[0..<101] = [0..<100] @ [100]"
    using upt_Suc_append [of 0 100] by simp
  ultimately have "recent_rows db_many = map g [101..<201] @ map g [0..<100]"
    by (simp add: recent_rows_def limit_def j)
  then show ?thesis
    by (simp add: g_def tx_def o_def)
qed

theorem recent_transactions_listing_witness:
  "unique_item_ids db_many \<and> item_refs_exist db_many \<and> txn_ids_increasing db_many
   \<and> 201 \<le> length (transactions db_many)
   \<and> length (df_rows (recent_transactions db_many)) = 200
   \<and> sorted_wrt newer_first (recent_rows db_many)
   \<and> map (\<lambda>ti. t_id (fst ti)) (recent_rows db_many)
       = map (\<lambda>k. int k + 1) ([101..<201] @ [0..<100])"
proof -
  have u: "unique_item_ids db_many"
    by (simp add: unique_item_ids_def db_many_def)
  have r: "item_refs_exist db_many"
    by (simp add: item_refs_exist_def list_all_iff db_many_def)
  have "sorted_wrt (<) [0..<201 :: nat]"
    by simp
  then have "sorted_wrt (\<lambda>x y. int x + 1 < int y + 1) [0..<201]"
    by (rule sorted_wrt_mono_rel [rotated]) simp
  then have "sorted_wrt (<) (map (\<lambda>k. int k + 1) [0..<201])"
    by (simp add: sorted_wrt_map)
  then have i: "txn_ids_increasing db_many"
    by (simp add: txn_ids_increasing_def db_many_def o_def)
  have n: "201 \<le> length (transactions db_many)"
    by (simp add: db_many_def)
  note t = recent_transactions_listing [OF u r i]
  from t n have l: "length (df_rows (recent_transactions db_many)) = 200"
    by blast
  from t have s: "sorted_wrt newer_first (recent_rows db_many)"
    by blast
  show ?thesis
    using u r i n l s recent_rows_db_many by blast
qed

end
